theory Spec2Isabelle
  imports Complex_Main
begin

unbundle bit_operations_syntax

section \<open>Data model of \<open>main.py\<close>\<close>

text \<open>
  The program is one Python file that talks to three external parties: the AWS Rekognition
  service (through \<open>boto3\<close>), the local file system and OpenCV (camera, JPEG encoder,
  display window, keyboard). Every call to one of them is a field of the record \<open>env\<close>
  below; the hidden state of the outside world is a value of the type variable \<open>'w\<close> that
  each call takes and returns. The program's own effects are recorded as a list of events.

  Similarity scores and the threshold are Python floats compared with \<open>>=\<close>; they are
  modelled as real numbers (the service reports finite decimal scores, for which the float
  comparison and the real comparison agree).
\<close>

text \<open>
  Exceptions (subclasses of Python's \<open>Exception\<close>) that the code distinguishes; any
  other one is an \<open>OtherError\<close>. Asynchronous interrupts (\<open>KeyboardInterrupt\<close>) are
  not modelled.
\<close>

datatype exn =
    ResourceAlreadyExistsException
  | FileNotFoundError
  | KeyError string
  | OtherError string

text \<open>
  What ends a function of the program abnormally: \<open>sys.exit(code)\<close>, which no
  \<open>except Exception\<close> clause catches, or an exception that no clause caught.
\<close>

datatype abort = SystemExit nat | Uncaught exn

type_synonym bytes = "nat list"
type_synonym image = "nat list"

text \<open>
  The response of \<open>search_faces_by_image\<close> is a dictionary; the code reads
  \<open>resp.get('FaceMatches', [])\<close>, \<open>match['Similarity']\<close> and
  \<open>match['Face']['ExternalImageId']\<close>. A key that may be absent is an option.
\<close>

record face =
  external_image_id :: "string option"

record face_match =
  similarity :: "real option"
  face :: "face option"

record response =
  face_matches :: "face_match list option"

text \<open>A text drawn by \<open>cv2.putText\<close>: the string, its origin and its BGR colour.\<close>

datatype annotation = Annotation string "nat \<times> nat" "nat \<times> nat \<times> nat"

text \<open>A frame is the camera's image together with the texts drawn on it so far.\<close>

record frame =
  pixels :: image
  drawn :: "annotation list"

datatype level = DEBUG | INFO | WARNING | ERROR

datatype log_msg =
    CredentialsMissing
  | ClientInitialized string
  | ClientInitError exn
  | CollectionCreated string string
  | CollectionExists string
  | CollectionError string exn
  | FaceIndexed string string
  | ImageNotFound string
  | IndexingError string exn
  | StartingCapture
  | WebcamOpenFailed
  | GrabFailed
  | EncodeFailed
  | MatchFound string real
  | BelowThreshold string real
  | NoFaces
  | SearchFailed exn
  | QuitPressed
  | Releasing
  | Released
  | AppFinished

text \<open>One event per call that leaves the program.\<close>

datatype event =
    Log level log_msg
  | Boto3Client
  | CreateCollection string
  | ReadFile string
  | IndexFaces string bytes string
  | VideoCapture
  | CapRead
  | ImEncode image
  | SearchCall string bytes real nat
  | PutText annotation
  | ImShow string frame
  | WaitKey
  | CapRelease
  | DestroyAllWindows

text \<open>
  The decision taken for one frame. The source has no such type: it is the branch of
  lines 112--132 that runs, with the values that branch has in scope.
\<close>

datatype decision =
    Match string real
  | LowMatch string real
  | NoMatch
  | SearchError exn

section \<open>The match decision (lines 112--132)\<close>

text \<open>\<open>resp.get('FaceMatches', [])\<close>\<close>

definition get_face_matches :: "response \<Rightarrow> face_match list" where
  "get_face_matches resp = (case face_matches resp of None \<Rightarrow> [] | Some ms \<Rightarrow> ms)"

text \<open>
  The branches of the \<open>try\<close> block after the search call, and its \<open>except Exception\<close>
  clause. The argument is what the search call gave: an exception or a response. A missing
  key raises \<open>KeyError\<close> inside the \<open>try\<close>, which the same clause catches.
\<close>

definition decide :: "real \<Rightarrow> exn + response \<Rightarrow> decision" where
  "decide similarity_threshold r =
     (case r of
        Inl e \<Rightarrow> SearchError e
      | Inr resp \<Rightarrow>
          (case get_face_matches resp of
             [] \<Rightarrow> NoMatch
           | m # _ \<Rightarrow>
               (case similarity m of
                  None \<Rightarrow> SearchError (KeyError ''Similarity'')
                | Some sim \<Rightarrow>
                    (case face m of
                       None \<Rightarrow> SearchError (KeyError ''Face'')
                     | Some f \<Rightarrow>
                         (case external_image_id f of
                            None \<Rightarrow> SearchError (KeyError ''ExternalImageId'')
                          | Some face_id \<Rightarrow>
                              if sim \<ge> similarity_threshold then Match face_id sim
                              else LowMatch face_id sim)))))"

text \<open>The text, position and colour each branch passes to \<open>cv2.putText\<close>.\<close>

fun overlay :: "decision \<Rightarrow> annotation" where
  "overlay (Match face_id sim) = Annotation (''Match: '' @ face_id) (10, 30) (0, 255, 0)"
| "overlay (LowMatch face_id sim) = Annotation ''Low Match'' (10, 30) (0, 165, 255)"
| "overlay NoMatch = Annotation ''No Match'' (10, 30) (0, 0, 255)"
| "overlay (SearchError e) = Annotation ''Search Error'' (10, 60) (255, 0, 0)"

text \<open>The \<open>logging\<close> calls of each branch, in the order the branch makes them.\<close>

fun decision_logs :: "decision \<Rightarrow> event list" where
  "decision_logs (Match face_id sim) = [Log INFO (MatchFound face_id sim)]"
| "decision_logs (LowMatch face_id sim) =
     [Log INFO (MatchFound face_id sim), Log DEBUG (BelowThreshold face_id sim)]"
| "decision_logs NoMatch = [Log DEBUG NoFaces]"
| "decision_logs (SearchError e) = [Log ERROR (SearchFailed e)]"

section \<open>The environment and the program state\<close>

text \<open>
  Each field is one external call. A call that may raise returns a sum (\<open>Inl\<close> the
  exception). \<open>cap_read\<close> gives \<open>None\<close> when \<open>ret\<close> is false, and so does
  \<open>imencode\<close>, which is a function of the image alone.
\<close>

record 'w env =
  getenv :: "string \<Rightarrow> string option"
  boto3_client :: "string \<Rightarrow> 'w \<Rightarrow> (exn + unit) \<times> 'w"
  create_collection :: "string \<Rightarrow> 'w \<Rightarrow> (exn + string) \<times> 'w"
  read_file :: "string \<Rightarrow> 'w \<Rightarrow> (exn + bytes) \<times> 'w"
  index_faces :: "string \<Rightarrow> bytes \<Rightarrow> string \<Rightarrow> 'w \<Rightarrow> (exn + unit) \<times> 'w"
  video_capture :: "'w \<Rightarrow> bool \<times> 'w"
  cap_read :: "'w \<Rightarrow> (exn + image option) \<times> 'w"
  imencode :: "image \<Rightarrow> exn + bytes option"
  search_faces_by_image :: "string \<Rightarrow> bytes \<Rightarrow> real \<Rightarrow> nat \<Rightarrow> 'w \<Rightarrow> (exn + response) \<times> 'w"
  imshow :: "string \<Rightarrow> frame \<Rightarrow> 'w \<Rightarrow> exn option \<times> 'w"
  wait_key :: "nat \<Rightarrow> 'w \<Rightarrow> (exn + int) \<times> 'w"

text \<open>
  The program's state: the outside world, whether the capture handle \<open>cap\<close> is open
  (\<open>cap.isOpened()\<close>: true from a successful \<open>cv2.VideoCapture(0)\<close> until
  \<open>cap.release()\<close>), and the events so far.
\<close>

record 'w state =
  world :: 'w
  cap_opened :: bool
  trace :: "event list"

definition emit :: "event \<Rightarrow> 'w state \<Rightarrow> 'w state" where
  "emit ev st = st\<lparr>trace := trace st @ [ev]\<rparr>"

text \<open>The call happened: the world moves on and the event is recorded.\<close>

definition called :: "event \<Rightarrow> 'w \<Rightarrow> 'w state \<Rightarrow> 'w state" where
  "called ev w st = st\<lparr>world := w, trace := trace st @ [ev]\<rparr>"

definition COLLECTION_ID :: string where "COLLECTION_ID = ''my-face-collection''"
definition KNOWN_FACE_IMAGE :: string where "KNOWN_FACE_IMAGE = ''me.jpg''"
definition KNOWN_FACE_ID :: string where "KNOWN_FACE_ID = ''S_Bussiso_Dube''"
definition SIMILARITY_THRESHOLD :: real where "SIMILARITY_THRESHOLD = 85"

text \<open>\<open>os.getenv('AWS_REGION', 'us-east-1')\<close>\<close>

definition REGION_NAME :: "'w env \<Rightarrow> string" where
  "REGION_NAME env = (case getenv env ''AWS_REGION'' of None \<Rightarrow> ''us-east-1'' | Some r \<Rightarrow> r)"

text \<open>Python's \<open>not s\<close> for an optional string: true for \<open>None\<close> and for the empty string.\<close>

definition falsy :: "string option \<Rightarrow> bool" where
  "falsy s = (case s of None \<Rightarrow> True | Some v \<Rightarrow> v = [])"

section \<open>Start-up (lines 29--81)\<close>

definition initialize_rekognition :: "'w env \<Rightarrow> 'w state \<Rightarrow> (abort + unit) \<times> 'w state" where
  "initialize_rekognition env st =
     (if falsy (getenv env ''AWS_ACCESS_KEY_ID'') \<or> falsy (getenv env ''AWS_SECRET_ACCESS_KEY'')
      then (Inl (SystemExit 1), emit (Log ERROR CredentialsMissing) st)
      else
        (case boto3_client env (REGION_NAME env) (world st) of
           (Inr u, w) \<Rightarrow>
             (Inr (), emit (Log INFO (ClientInitialized (REGION_NAME env))) (called Boto3Client w st))
         | (Inl e, w) \<Rightarrow>
             (Inl (SystemExit 1), emit (Log ERROR (ClientInitError e)) (called Boto3Client w st))))"

definition setup_collection :: "'w env \<Rightarrow> string \<Rightarrow> 'w state \<Rightarrow> (abort + unit) \<times> 'w state" where
  "setup_collection env collection_id st =
     (case create_collection env collection_id (world st) of
        (Inr arn, w) \<Rightarrow>
          (Inr (), emit (Log INFO (CollectionCreated collection_id arn))
                     (called (CreateCollection collection_id) w st))
      | (Inl e, w) \<Rightarrow>
          if e = ResourceAlreadyExistsException
          then (Inr (), emit (Log INFO (CollectionExists collection_id))
                          (called (CreateCollection collection_id) w st))
          else (Inl (SystemExit 1), emit (Log ERROR (CollectionError collection_id e))
                                      (called (CreateCollection collection_id) w st)))"

text \<open>The two \<open>except\<close> clauses of \<open>index_known_face\<close>, in their order.\<close>

definition index_failed :: "string \<Rightarrow> exn \<Rightarrow> 'w state \<Rightarrow> (abort + unit) \<times> 'w state" where
  "index_failed image_path e st =
     (if e = FileNotFoundError
      then (Inl (SystemExit 1), emit (Log ERROR (ImageNotFound image_path)) st)
      else (Inr (), emit (Log ERROR (IndexingError image_path e)) st))"

definition index_known_face ::
  "'w env \<Rightarrow> string \<Rightarrow> string \<Rightarrow> string \<Rightarrow> 'w state \<Rightarrow> (abort + unit) \<times> 'w state" where
  "index_known_face env collection_id image_path external_id st =
     (case read_file env image_path (world st) of
        (Inl e, w) \<Rightarrow> index_failed image_path e (called (ReadFile image_path) w st)
      | (Inr image_bytes, w) \<Rightarrow>
          (let st1 = called (ReadFile image_path) w st in
           case index_faces env collection_id image_bytes external_id (world st1) of
             (Inl e, w1) \<Rightarrow>
               index_failed image_path e
                 (called (IndexFaces collection_id image_bytes external_id) w1 st1)
           | (Inr u, w1) \<Rightarrow>
               (Inr (), emit (Log INFO (FaceIndexed image_path external_id))
                          (called (IndexFaces collection_id image_bytes external_id) w1 st1))))"

section \<open>The recognition loop (lines 83--145)\<close>

text \<open>How one pass through the body of \<open>while True\<close> ends.\<close>

datatype flow = Continue | Break | Raise exn

text \<open>
  Lines 104--132: the search call with the configured threshold and \<open>MaxFaces=1\<close>, the
  branch taken, its log lines and the one text it draws on the frame.
\<close>

definition search_and_annotate ::
  "'w env \<Rightarrow> string \<Rightarrow> real \<Rightarrow> bytes \<Rightarrow> frame \<Rightarrow> 'w state \<Rightarrow> frame \<times> 'w state" where
  "search_and_annotate env collection_id similarity_threshold image_bytes_frame fr st =
     (case search_faces_by_image env collection_id image_bytes_frame similarity_threshold 1 (world st) of
        (r, w) \<Rightarrow>
          (let d = decide similarity_threshold r in
           (fr\<lparr>drawn := drawn fr @ [overlay d]\<rparr>,
            st\<lparr>world := w,
               trace := trace st
                        @ [SearchCall collection_id image_bytes_frame similarity_threshold 1]
                        @ decision_logs d @ [PutText (overlay d)]\<rparr>)))"

text \<open>
  Lines 134--138: show the frame, then poll the keyboard once;
  \<open>cv2.waitKey(1) & 0xFF == ord('q')\<close> with \<open>ord('q') = 113\<close>.
\<close>

definition show_and_poll :: "'w env \<Rightarrow> frame \<Rightarrow> 'w state \<Rightarrow> flow \<times> 'w state" where
  "show_and_poll env fr st =
     (case imshow env ''Face Recognition'' fr (world st) of
        (Some e, w) \<Rightarrow> (Raise e, called (ImShow ''Face Recognition'' fr) w st)
      | (None, w) \<Rightarrow>
          (let st1 = called (ImShow ''Face Recognition'' fr) w st in
           case wait_key env 1 (world st1) of
             (Inl e, w1) \<Rightarrow> (Raise e, called WaitKey w1 st1)
           | (Inr k, w1) \<Rightarrow>
               if k AND 255 = 113
               then (Break, emit (Log INFO QuitPressed) (called WaitKey w1 st1))
               else (Continue, called WaitKey w1 st1)))"

text \<open>Lines 93--138, one pass.\<close>

definition loop_body :: "'w env \<Rightarrow> string \<Rightarrow> real \<Rightarrow> 'w state \<Rightarrow> flow \<times> 'w state" where
  "loop_body env collection_id similarity_threshold st =
     (case cap_read env (world st) of
        (Inl e, w) \<Rightarrow> (Raise e, called CapRead w st)
      | (Inr None, w) \<Rightarrow> (Break, emit (Log WARNING GrabFailed) (called CapRead w st))
      | (Inr (Some img), w) \<Rightarrow>
          (let st1 = called CapRead w st in
           case imencode env img of
             Inl e \<Rightarrow> (Raise e, emit (ImEncode img) st1)
           | Inr None \<Rightarrow> (Continue, emit (Log WARNING EncodeFailed) (emit (ImEncode img) st1))
           | Inr (Some buf) \<Rightarrow>
               (case search_and_annotate env collection_id similarity_threshold buf
                       \<lparr>pixels = img, drawn = []\<rparr> (emit (ImEncode img) st1) of
                  (fr, st2) \<Rightarrow> show_and_poll env fr st2)))"

text \<open>
  \<open>while True\<close>. The loop may run for ever (a camera that always delivers and a user who
  never presses \<open>q\<close>), so it takes fuel: \<open>None\<close> means the fuel ran out before the loop
  ended. A loop that ends gives \<open>Inr ()\<close> after a \<open>break\<close> and \<open>Inl e\<close> when \<open>e\<close>
  escaped the body.
\<close>

fun run_loop ::
  "nat \<Rightarrow> 'w env \<Rightarrow> string \<Rightarrow> real \<Rightarrow> 'w state \<Rightarrow> ((exn + unit) \<times> 'w state) option" where
  "run_loop 0 env collection_id similarity_threshold st = None"
| "run_loop (Suc n) env collection_id similarity_threshold st =
     (case loop_body env collection_id similarity_threshold st of
        (Continue, st1) \<Rightarrow> run_loop n env collection_id similarity_threshold st1
      | (Break, st1) \<Rightarrow> Some (Inr (), st1)
      | (Raise e, st1) \<Rightarrow> Some (Inl e, st1))"

text \<open>The \<open>finally\<close> block, lines 139--145.\<close>

definition cleanup :: "'w state \<Rightarrow> 'w state" where
  "cleanup st =
     (let st1 = emit (Log INFO Releasing) st;
          st2 = (if cap_opened st1 then emit CapRelease (st1\<lparr>cap_opened := False\<rparr>) else st1)
      in emit (Log INFO Released) (emit DestroyAllWindows st2))"

definition run_face_recognition ::
  "nat \<Rightarrow> 'w env \<Rightarrow> string \<Rightarrow> real \<Rightarrow> 'w state \<Rightarrow> ((abort + unit) \<times> 'w state) option" where
  "run_face_recognition fuel env collection_id similarity_threshold st =
     (case video_capture env (world (emit (Log INFO StartingCapture) st)) of
        (ok, w) \<Rightarrow>
          (let st1 = (called VideoCapture w (emit (Log INFO StartingCapture) st))\<lparr>cap_opened := ok\<rparr> in
           if \<not> ok then Some (Inl (SystemExit 1), emit (Log ERROR WebcamOpenFailed) st1)
           else
             (case run_loop fuel env collection_id similarity_threshold st1 of
                None \<Rightarrow> None
              | Some (Inl e, st2) \<Rightarrow> Some (Inl (Uncaught e), cleanup st2)
              | Some (Inr u, st2) \<Rightarrow> Some (Inr (), cleanup st2))))"

section \<open>The whole program (lines 148--154)\<close>

definition initial_state :: "'w \<Rightarrow> 'w state" where
  "initial_state w = \<lparr>world = w, cap_opened = False, trace = []\<rparr>"

definition main :: "nat \<Rightarrow> 'w env \<Rightarrow> 'w \<Rightarrow> ((abort + unit) \<times> 'w state) option" where
  "main fuel env w =
     (case initialize_rekognition env (initial_state w) of
        (Inl a, st1) \<Rightarrow> Some (Inl a, st1)
      | (Inr u1, st1) \<Rightarrow>
          (case setup_collection env COLLECTION_ID st1 of
             (Inl a, st2) \<Rightarrow> Some (Inl a, st2)
           | (Inr u2, st2) \<Rightarrow>
               (case index_known_face env COLLECTION_ID KNOWN_FACE_IMAGE KNOWN_FACE_ID st2 of
                  (Inl a, st3) \<Rightarrow> Some (Inl a, st3)
                | (Inr u3, st3) \<Rightarrow>
                    (case run_face_recognition fuel env COLLECTION_ID SIMILARITY_THRESHOLD st3 of
                       None \<Rightarrow> None
                     | Some (Inl a, st4) \<Rightarrow> Some (Inl a, st4)
                     | Some (Inr u4, st4) \<Rightarrow> Some (Inr (), emit (Log INFO AppFinished) st4)))))"

section \<open>Auxiliary definitions for stating the claims\<close>

text \<open>
  The state after \<open>k\<close> passes of the loop body that all went on to the next pass
  (\<open>None\<close> if one of them left the loop).
\<close>

fun iterations :: "nat \<Rightarrow> 'w env \<Rightarrow> string \<Rightarrow> real \<Rightarrow> 'w state \<Rightarrow> 'w state option" where
  "iterations 0 env collection_id similarity_threshold st = Some st"
| "iterations (Suc k) env collection_id similarity_threshold st =
     (case loop_body env collection_id similarity_threshold st of
        (Continue, st1) \<Rightarrow> iterations k env collection_id similarity_threshold st1
      | (Break, st1) \<Rightarrow> None
      | (Raise e, st1) \<Rightarrow> None)"

text \<open>
  The contract of the remote search that claim C10 assumes: every candidate the service
  returns has a similarity of at least the \<open>FaceMatchThreshold\<close> it was called with.
\<close>

definition respects_threshold :: "'w env \<Rightarrow> bool" where
  "respects_threshold env \<longleftrightarrow>
     (\<forall>cid buf t mx w resp m s.
        fst (search_faces_by_image env cid buf t mx w) = Inr resp \<longrightarrow>
        m \<in> set (get_face_matches resp) \<longrightarrow> similarity m = Some s \<longrightarrow> t \<le> s)"

text \<open>The events by which a low match shows: its overlay and its log line.\<close>

fun low_match_event :: "event \<Rightarrow> bool" where
  "low_match_event (PutText a) = (a = Annotation ''Low Match'' (10, 30) (0, 165, 255))"
| "low_match_event (Log l (BelowThreshold face_id sim)) = True"
| "low_match_event ev = False"

text \<open>
  The contract of the remote service behind idempotent set-up: once a call to create a
  collection has succeeded or has reported that the collection exists, a further call for
  the same id, in the world the first call left, reports that it exists.
\<close>

definition keeps_collections :: "'w env \<Rightarrow> bool" where
  "keeps_collections env \<longleftrightarrow>
     (\<forall>cid w r w'. create_collection env cid w = (r, w') \<longrightarrow>
        (r = Inl ResourceAlreadyExistsException \<or> (\<exists>arn. r = Inr arn)) \<longrightarrow>
        fst (create_collection env cid w') = Inl ResourceAlreadyExistsException)"

subsection \<open>A scripted environment for concrete runs\<close>

text \<open>
  A small outside world to run the program in: the collections the service holds, and
  what the camera, the search and the keyboard will answer next. A camera with no frame
  left fails to grab, a search with no answer left finds no face, a keyboard with no key
  left reports \<open>-1\<close> (no key pressed).
\<close>

record sim_world =
  sim_collections :: "string list"
  sim_frames :: "(exn + image option) list"
  sim_answers :: "(exn + response) list"
  sim_keys :: "int list"

definition sim_env :: "(exn + unit) \<Rightarrow> (image \<Rightarrow> exn + bytes option) \<Rightarrow> sim_world env" where
  "sim_env index_result encoder =
     \<lparr>getenv = (\<lambda>k. if k = ''AWS_REGION'' then None else Some ''secret''),
      boto3_client = (\<lambda>region w. (Inr (), w)),
      create_collection = (\<lambda>cid w.
        if cid \<in> set (sim_collections w) then (Inl ResourceAlreadyExistsException, w)
        else (Inr (''arn:'' @ cid), w\<lparr>sim_collections := cid # sim_collections w\<rparr>)),
      read_file = (\<lambda>path w. (Inr [255, 216, 255], w)),
      index_faces = (\<lambda>cid image_bytes external_id w. (index_result, w)),
      video_capture = (\<lambda>w. (True, w)),
      cap_read = (\<lambda>w. case sim_frames w of
                          [] \<Rightarrow> (Inr None, w)
                        | f # fs \<Rightarrow> (f, w\<lparr>sim_frames := fs\<rparr>)),
      imencode = encoder,
      search_faces_by_image = (\<lambda>cid buf t mx w. case sim_answers w of
                          [] \<Rightarrow> (Inr \<lparr>face_matches = Some []\<rparr>, w)
                        | a # as \<Rightarrow> (a, w\<lparr>sim_answers := as\<rparr>)),
      imshow = (\<lambda>name fr w. (None, w)),
      wait_key = (\<lambda>delay w. case sim_keys w of
                          [] \<Rightarrow> (Inr (- 1), w)
                        | k # ks \<Rightarrow> (Inr k, w\<lparr>sim_keys := ks\<rparr>))\<rparr>"

text \<open>An encoder that always succeeds, and a world with the given script.\<close>

definition jpeg :: "image \<Rightarrow> exn + bytes option" where
  "jpeg img = Inr (Some (255 # 216 # img))"

definition sim_start ::
  "(exn + image option) list \<Rightarrow> (exn + response) list \<Rightarrow> int list \<Rightarrow> sim_world" where
  "sim_start frames answers keys =
     \<lparr>sim_collections = [], sim_frames = frames, sim_answers = answers, sim_keys = keys\<rparr>"

text \<open>A candidate with the given id and similarity, and a response holding candidates.\<close>

definition candidate :: "string \<Rightarrow> real \<Rightarrow> face_match" where
  "candidate face_id sim =
     \<lparr>similarity = Some sim, face = Some \<lparr>external_image_id = Some face_id\<rparr>\<rparr>"

definition found :: "face_match list \<Rightarrow> exn + response" where
  "found ms = Inr \<lparr>face_matches = Some ms\<rparr>"

text \<open>
  A search service that keeps, of a fixed list of candidates, those whose similarity
  reaches the threshold it is called with.
\<close>

definition filtering_env :: "face_match list \<Rightarrow> sim_world env" where
  "filtering_env ms =
     (sim_env (Inr ()) jpeg)
       \<lparr>search_faces_by_image := (\<lambda>cid buf t mx w.
          (found (filter (\<lambda>m. case similarity m of None \<Rightarrow> False | Some s \<Rightarrow> t \<le> s) ms), w))\<rparr>"

section \<open>Threshold boundary\<close>

text \<open>
  C1. The threshold is a closed lower bound. For every response whose first candidate
  carries a similarity and an external id, the decision is \<open>Match\<close> with that id and
  similarity when the similarity is at least the threshold, and \<open>LowMatch\<close> with them
  when it is strictly below.
\<close>

theorem decide_threshold_closed:
  assumes "get_face_matches resp = m # ms"
    and "similarity m = Some sim"
    and "face m = Some f"
    and "external_image_id f = Some face_id"
  shows "(thr \<le> sim \<longrightarrow> decide thr (Inr resp) = Match face_id sim) \<and>
         (sim < thr \<longrightarrow> decide thr (Inr resp) = LowMatch face_id sim)"
  using assms by (simp add: decide_def)

text \<open>Threshold 85.0: similarity 85.0 is a match, similarity 84.99 is a low match.\<close>

theorem decide_threshold_closed_witness:
  "decide 85 (Inr \<lparr>face_matches = Some [\<lparr>similarity = Some 85,
       face = Some \<lparr>external_image_id = Some ''S_Bussiso_Dube''\<rparr>\<rparr>]\<rparr>)
     = Match ''S_Bussiso_Dube'' 85 \<and>
   decide 85 (Inr \<lparr>face_matches = Some [\<lparr>similarity = Some (8499 / 100),
       face = Some \<lparr>external_image_id = Some ''S_Bussiso_Dube''\<rparr>\<rparr>]\<rparr>)
     = LowMatch ''S_Bussiso_Dube'' (8499 / 100)"
proof -
  let ?f = "\<lparr>external_image_id = Some ''S_Bussiso_Dube''\<rparr>"
  let ?hi = "\<lparr>similarity = Some (85::real), face = Some ?f\<rparr>"
  let ?lo = "\<lparr>similarity = Some (8499 / 100 :: real), face = Some ?f\<rparr>"
  have hi: "get_face_matches \<lparr>face_matches = Some [?hi]\<rparr> = ?hi # []"
    by (simp add: get_face_matches_def)
  have lo: "get_face_matches \<lparr>face_matches = Some [?lo]\<rparr> = ?lo # []"
    by (simp add: get_face_matches_def)
  from decide_threshold_closed [OF hi, of 85 ?f "''S_Bussiso_Dube''" 85]
  have a: "decide 85 (Inr \<lparr>face_matches = Some [?hi]\<rparr>) = Match ''S_Bussiso_Dube'' 85"
    by simp
  from decide_threshold_closed [OF lo, of "8499 / 100" ?f "''S_Bussiso_Dube''" 85]
  have b: "decide 85 (Inr \<lparr>face_matches = Some [?lo]\<rparr>)
             = LowMatch ''S_Bussiso_Dube'' (8499 / 100)"
    by simp
  from a b show ?thesis by simp
qed

section \<open>No candidates\<close>

text \<open>
  C8. A response with no candidates (the list is empty, or the key \<open>FaceMatches\<close> is
  absent) gives \<open>NoMatch\<close>, whatever the threshold.
\<close>

theorem decide_no_candidates:
  "get_face_matches resp = [] \<Longrightarrow> decide thr (Inr resp) = NoMatch"
  by (simp add: decide_def)

theorem decide_no_candidates_witness:
  "get_face_matches \<lparr>face_matches = Some []\<rparr> = [] \<and>
   decide 85 (Inr \<lparr>face_matches = Some []\<rparr>) = NoMatch"
proof -
  have e: "get_face_matches \<lparr>face_matches = Some []\<rparr> = []"
    by (simp add: get_face_matches_def)
  from decide_no_candidates [OF e, of 85] e show ?thesis by simp
qed

section \<open>A frame that cannot be encoded\<close>

text \<open>
  C3, as stated, fails: in a pass whose frame cannot be encoded the body runs
  \<open>continue\<close> at line 101, which skips \<open>cv2.waitKey\<close> at line 136 with everything
  else. Here the user has pressed \<open>q\<close> (key code 113 is waiting), the one frame fails to
  encode, and the pass ends without any \<open>WaitKey\<close> call: the key is still unread.
\<close>

theorem encode_failure_skips_poll_counterexample:
  "imencode (sim_env (Inr ()) (\<lambda>img. Inr None)) [1, 2, 3] = Inr None \<and>
   loop_body (sim_env (Inr ()) (\<lambda>img. Inr None)) ''c'' 85
       \<lparr>world = sim_start [Inr (Some [1, 2, 3])] [] [113], cap_opened = True, trace = []\<rparr>
     = (Continue,
        \<lparr>world = sim_start [] [] [113], cap_opened = True,
           trace = [CapRead, ImEncode [1, 2, 3], Log WARNING EncodeFailed]\<rparr>) \<and>
   WaitKey \<notin> set [CapRead, ImEncode [1, 2, 3], Log WARNING EncodeFailed]"
  by (simp add: sim_env_def sim_start_def loop_body_def called_def emit_def)

text \<open>
  C3, amended. In every pass in which the encoder reports failure (\<open>cv2.imencode\<close> returns
  \<open>ret\<close> false), the body does nothing after the failed encoding but log a warning: no
  search, no text drawn, no frame shown and no keyboard poll; the loop stays running and goes
  on with the next pass, in which the keyboard is polled again if that pass reaches line 136.
  In every pass in which the encoder raises instead, nothing is searched, drawn, shown or
  polled either, but the exception leaves the body (line 98 is outside the \<open>try\<close> of line
  104) and the loop ends with it.
\<close>

theorem encode_failure_skips_iteration:
  assumes "cap_read env (world st) = (Inr (Some img), w)"
  shows "(imencode env img = Inr None \<longrightarrow>
            loop_body env cid thr st
              = (Continue, st\<lparr>world := w,
                   trace := trace st @ [CapRead, ImEncode img, Log WARNING EncodeFailed]\<rparr>) \<and>
            run_loop (Suc n) env cid thr st
              = run_loop n env cid thr (st\<lparr>world := w,
                   trace := trace st @ [CapRead, ImEncode img, Log WARNING EncodeFailed]\<rparr>)) \<and>
         (imencode env img = Inl e \<longrightarrow>
            loop_body env cid thr st
              = (Raise e, st\<lparr>world := w, trace := trace st @ [CapRead, ImEncode img]\<rparr>) \<and>
            run_loop (Suc n) env cid thr st
              = Some (Inl e, st\<lparr>world := w, trace := trace st @ [CapRead, ImEncode img]\<rparr>))"
  using assms by (simp add: loop_body_def called_def emit_def)

text \<open>
  The user has pressed \<open>q\<close> and the one frame cannot be encoded: with an encoder that
  reports failure the loop goes on to its next pass, with an encoder that raises it ends.
\<close>

theorem encode_failure_skips_iteration_witness:
  "loop_body (sim_env (Inr ()) (\<lambda>img. Inr None)) ''c'' 85
       \<lparr>world = sim_start [Inr (Some [1, 2, 3])] [] [113], cap_opened = True, trace = []\<rparr>
     = (Continue,
        \<lparr>world = sim_start [] [] [113], cap_opened = True,
           trace = [CapRead, ImEncode [1, 2, 3], Log WARNING EncodeFailed]\<rparr>) \<and>
   run_loop 2 (sim_env (Inr ()) (\<lambda>img. Inr None)) ''c'' 85
       \<lparr>world = sim_start [Inr (Some [1, 2, 3])] [] [113], cap_opened = True, trace = []\<rparr>
     = run_loop 1 (sim_env (Inr ()) (\<lambda>img. Inr None)) ''c'' 85
       \<lparr>world = sim_start [] [] [113], cap_opened = True,
          trace = [CapRead, ImEncode [1, 2, 3], Log WARNING EncodeFailed]\<rparr> \<and>
   run_loop 2 (sim_env (Inr ()) (\<lambda>img. Inl (OtherError ''cv2.error''))) ''c'' 85
       \<lparr>world = sim_start [Inr (Some [1, 2, 3])] [] [113], cap_opened = True, trace = []\<rparr>
     = Some (Inl (OtherError ''cv2.error''),
         \<lparr>world = sim_start [] [] [113], cap_opened = True,
            trace = [CapRead, ImEncode [1, 2, 3]]\<rparr>)"
proof -
  let ?env = "sim_env (Inr ()) (\<lambda>img. Inr None)"
  let ?bad = "sim_env (Inr ()) (\<lambda>img. Inl (OtherError ''cv2.error''))"
  let ?st = "\<lparr>world = sim_start [Inr (Some [1, 2, 3])] [] [113], cap_opened = True, trace = []\<rparr>"
  have r: "cap_read ?env (world ?st) = (Inr (Some [1, 2, 3]), sim_start [] [] [113])"
    by (simp add: sim_env_def sim_start_def)
  have r': "cap_read ?bad (world ?st) = (Inr (Some [1, 2, 3]), sim_start [] [] [113])"
    by (simp add: sim_env_def sim_start_def)
  have e: "imencode ?env [1, 2, 3] = Inr None"
    by (simp add: sim_env_def)
  have e': "imencode ?bad [1, 2, 3] = Inl (OtherError ''cv2.error'')"
    by (simp add: sim_env_def)
  from encode_failure_skips_iteration [OF r, where cid = "''c''" and thr = 85 and n = 1] e
  have a: "loop_body ?env ''c'' 85 ?st
     = (Continue,
        \<lparr>world = sim_start [] [] [113], cap_opened = True,
           trace = [CapRead, ImEncode [1, 2, 3], Log WARNING EncodeFailed]\<rparr>) \<and>
     run_loop 2 ?env ''c'' 85 ?st
     = run_loop 1 ?env ''c'' 85
       \<lparr>world = sim_start [] [] [113], cap_opened = True,
          trace = [CapRead, ImEncode [1, 2, 3], Log WARNING EncodeFailed]\<rparr>"
    by (simp add: numeral_2_eq_2)
  from encode_failure_skips_iteration [OF r', where cid = "''c''" and thr = 85 and n = 1
      and e = "OtherError ''cv2.error''"] e'
  have b: "run_loop 2 ?bad ''c'' 85 ?st
     = Some (Inl (OtherError ''cv2.error''),
         \<lparr>world = sim_start [] [] [113], cap_opened = True,
            trace = [CapRead, ImEncode [1, 2, 3]]\<rparr>)"
    by (simp add: numeral_2_eq_2)
  from a b show ?thesis by simp
qed

section \<open>What is shown for a frame\<close>

text \<open>
  C4, as stated, fails: not every frame the loop acquires is rendered. The camera delivers
  two frames and then stops; the first is encoded, searched and shown with its overlay, the
  second cannot be encoded. The run holds one \<open>ImShow\<close> for two frames read: the second
  frame is never shown, and the window keeps the first one.
\<close>

theorem unencodable_frame_not_rendered_counterexample:
  "run_loop 3 (sim_env (Inr ()) (\<lambda>img. if img = [1] then jpeg img else Inr None)) ''c'' 85
       \<lparr>world = sim_start [Inr (Some [1]), Inr (Some [2])] [] [], cap_opened = True, trace = []\<rparr>
     = Some (Inr (),
         \<lparr>world = sim_start [] [] [], cap_opened = True,
            trace =
              [CapRead, ImEncode [1], SearchCall ''c'' [255, 216, 1] 85 1, Log DEBUG NoFaces,
               PutText (Annotation ''No Match'' (10, 30) (0, 0, 255)),
               ImShow ''Face Recognition''
                 \<lparr>pixels = [1], drawn = [Annotation ''No Match'' (10, 30) (0, 0, 255)]\<rparr>,
               WaitKey,
               CapRead, ImEncode [2], Log WARNING EncodeFailed,
               CapRead, Log WARNING GrabFailed]\<rparr>)"
  by (simp add: numeral_3_eq_3 sim_env_def sim_start_def jpeg_def loop_body_def
        search_and_annotate_def show_and_poll_def decide_def get_face_matches_def
        Let_def called_def emit_def)

lemma decision_logs_are_logs:
  "set (decision_logs d) \<subseteq> {ev. \<exists>l m. ev = Log l m}"
  by (cases d) auto

text \<open>
  C4, amended. For a frame that was acquired: if the encoder reports failure the frame is
  not shown at all (the window keeps what it showed before) and the loop goes on; if the
  encoder raises, or \<open>cv2.imshow\<close> raises, the frame is not shown and the exception ends
  the loop. If the frame is encoded and \<open>cv2.imshow\<close> returns, the frame is shown exactly
  once in that pass, carrying exactly one text: the overlay of the decision taken for it,
  also when the search failed (the decision is then \<open>SearchError\<close>); beside it the pass
  only searches once, writes log lines and polls the keyboard once. The four overlays differ
  pairwise.
\<close>

theorem encoded_frame_rendered_once:
  assumes "cap_read env (world st) = (Inr (Some img), w1)"
  shows "(imencode env img = Inr None \<longrightarrow>
            loop_body env cid thr st
              = (Continue, st\<lparr>world := w1,
                   trace := trace st @ [CapRead, ImEncode img, Log WARNING EncodeFailed]\<rparr>)) \<and>
         (imencode env img = Inl e1 \<longrightarrow>
            loop_body env cid thr st
              = (Raise e1, st\<lparr>world := w1, trace := trace st @ [CapRead, ImEncode img]\<rparr>)) \<and>
         (imencode env img = Inr (Some buf) \<longrightarrow>
          search_faces_by_image env cid buf thr 1 w1 = (r, w2) \<longrightarrow>
            (imshow env ''Face Recognition''
                 \<lparr>pixels = img, drawn = [overlay (decide thr r)]\<rparr> w2 = (Some e2, w3) \<longrightarrow>
               loop_body env cid thr st
                 = (Raise e2,
                    st\<lparr>world := w3,
                       trace := trace st @ [CapRead, ImEncode img, SearchCall cid buf thr 1]
                         @ decision_logs (decide thr r)
                         @ [PutText (overlay (decide thr r)),
                            ImShow ''Face Recognition''
                              \<lparr>pixels = img, drawn = [overlay (decide thr r)]\<rparr>]\<rparr>)) \<and>
            (imshow env ''Face Recognition''
                 \<lparr>pixels = img, drawn = [overlay (decide thr r)]\<rparr> w2 = (None, w3) \<longrightarrow>
             wait_key env 1 w3 = (kr, w4) \<longrightarrow>
               loop_body env cid thr st
                 = (case kr of
                      Inl e3 \<Rightarrow> Raise e3
                    | Inr k \<Rightarrow> if k AND 255 = 113 then Break else Continue,
                    st\<lparr>world := w4,
                       trace := trace st @ [CapRead, ImEncode img, SearchCall cid buf thr 1]
                         @ decision_logs (decide thr r)
                         @ [PutText (overlay (decide thr r)),
                            ImShow ''Face Recognition''
                              \<lparr>pixels = img, drawn = [overlay (decide thr r)]\<rparr>,
                            WaitKey]
                         @ (case kr of
                              Inl e3 \<Rightarrow> []
                            | Inr k \<Rightarrow> if k AND 255 = 113 then [Log INFO QuitPressed] else [])\<rparr>)) \<and>
            set (decision_logs (decide thr r)) \<subseteq> {ev. \<exists>l m. ev = Log l m}) \<and>
         overlay (Match f s) \<noteq> overlay (LowMatch f' s') \<and>
         overlay (Match f s) \<noteq> overlay NoMatch \<and>
         overlay (Match f s) \<noteq> overlay (SearchError e) \<and>
         overlay (LowMatch f' s') \<noteq> overlay NoMatch \<and>
         overlay (LowMatch f' s') \<noteq> overlay (SearchError e) \<and>
         overlay NoMatch \<noteq> overlay (SearchError e)"
proof -
  have skipped: "loop_body env cid thr st
       = (Continue, st\<lparr>world := w1,
            trace := trace st @ [CapRead, ImEncode img, Log WARNING EncodeFailed]\<rparr>)"
    if "imencode env img = Inr None"
    using assms that by (simp add: loop_body_def called_def emit_def)
  have raised: "loop_body env cid thr st
       = (Raise e1, st\<lparr>world := w1, trace := trace st @ [CapRead, ImEncode img]\<rparr>)"
    if "imencode env img = Inl e1"
    using assms that by (simp add: loop_body_def called_def emit_def)
  have not_shown: "loop_body env cid thr st
       = (Raise e2,
          st\<lparr>world := w3,
             trace := trace st @ [CapRead, ImEncode img, SearchCall cid buf thr 1]
               @ decision_logs (decide thr r)
               @ [PutText (overlay (decide thr r)),
                  ImShow ''Face Recognition''
                    \<lparr>pixels = img, drawn = [overlay (decide thr r)]\<rparr>]\<rparr>)"
    if "imencode env img = Inr (Some buf)"
      and "search_faces_by_image env cid buf thr 1 w1 = (r, w2)"
      and "imshow env ''Face Recognition''
             \<lparr>pixels = img, drawn = [overlay (decide thr r)]\<rparr> w2 = (Some e2, w3)"
    using assms that
    by (simp add: loop_body_def search_and_annotate_def show_and_poll_def Let_def
          called_def emit_def)
  have shown: "loop_body env cid thr st
       = (case kr of
            Inl e3 \<Rightarrow> Raise e3
          | Inr k \<Rightarrow> if k AND 255 = 113 then Break else Continue,
          st\<lparr>world := w4,
             trace := trace st @ [CapRead, ImEncode img, SearchCall cid buf thr 1]
               @ decision_logs (decide thr r)
               @ [PutText (overlay (decide thr r)),
                  ImShow ''Face Recognition''
                    \<lparr>pixels = img, drawn = [overlay (decide thr r)]\<rparr>,
                  WaitKey]
               @ (case kr of
                    Inl e3 \<Rightarrow> []
                  | Inr k \<Rightarrow> if k AND 255 = 113 then [Log INFO QuitPressed] else [])\<rparr>)"
    if "imencode env img = Inr (Some buf)"
      and "search_faces_by_image env cid buf thr 1 w1 = (r, w2)"
      and "imshow env ''Face Recognition''
             \<lparr>pixels = img, drawn = [overlay (decide thr r)]\<rparr> w2 = (None, w3)"
      and "wait_key env 1 w3 = (kr, w4)"
    using assms that
    by (cases kr)
       (simp_all add: loop_body_def search_and_annotate_def show_and_poll_def Let_def
          called_def emit_def)
  have distinct: "overlay (Match f s) \<noteq> overlay (LowMatch f' s') \<and>
         overlay (Match f s) \<noteq> overlay NoMatch \<and>
         overlay (Match f s) \<noteq> overlay (SearchError e) \<and>
         overlay (LowMatch f' s') \<noteq> overlay NoMatch \<and>
         overlay (LowMatch f' s') \<noteq> overlay (SearchError e) \<and>
         overlay NoMatch \<noteq> overlay (SearchError e)"
    by simp
  from skipped raised not_shown shown distinct decision_logs_are_logs [of "decide thr r"]
  show ?thesis by blast
qed

text \<open>
  A frame whose search fails, with a window that works and no key pressed: the frame is
  shown once with the overlay \<open>Search Error\<close> and the loop goes on.
\<close>

theorem encoded_frame_rendered_once_witness:
  "loop_body (sim_env (Inr ()) jpeg) ''c'' 85
        \<lparr>world = sim_start [Inr (Some [7])] [Inl (OtherError ''timeout'')] [],
           cap_opened = True, trace = []\<rparr>
     = (Continue,
        \<lparr>world = sim_start [] [] [], cap_opened = True,
           trace =
             [CapRead, ImEncode [7], SearchCall ''c'' [255, 216, 7] 85 1,
              Log ERROR (SearchFailed (OtherError ''timeout'')),
              PutText (Annotation ''Search Error'' (10, 60) (255, 0, 0)),
              ImShow ''Face Recognition''
                \<lparr>pixels = [7], drawn = [Annotation ''Search Error'' (10, 60) (255, 0, 0)]\<rparr>,
              WaitKey]\<rparr>)"
proof -
  let ?env = "sim_env (Inr ()) jpeg"
  let ?st = "\<lparr>world = sim_start [Inr (Some [7])] [Inl (OtherError ''timeout'')] [],
                cap_opened = True, trace = []\<rparr>"
  let ?w = "sim_start [] [] []"
  let ?fr = "\<lparr>pixels = [7], drawn = [Annotation ''Search Error'' (10, 60) (255, 0, 0)]\<rparr>"
  have r: "cap_read ?env (world ?st)
             = (Inr (Some [7]), sim_start [] [Inl (OtherError ''timeout'')] [])"
    by (simp add: sim_env_def sim_start_def)
  have e: "imencode ?env [7] = Inr (Some [255, 216, 7])"
    by (simp add: sim_env_def jpeg_def)
  have s: "search_faces_by_image ?env ''c'' [255, 216, 7] 85 1
             (sim_start [] [Inl (OtherError ''timeout'')] [])
             = (Inl (OtherError ''timeout''), ?w)"
    by (simp add: sim_env_def sim_start_def)
  have d: "decide 85 (Inl (OtherError ''timeout'')) = SearchError (OtherError ''timeout'')"
    by (simp add: decide_def)
  have i: "imshow ?env ''Face Recognition'' ?fr ?w = (None, ?w)"
    by (simp add: sim_env_def)
  have k: "wait_key ?env 1 ?w = (Inr (- 1), ?w)"
    by (simp add: sim_env_def sim_start_def)
  from encoded_frame_rendered_once [OF r, where buf = "[255, 216, 7]" and cid = "''c''"
         and thr = 85 and r = "Inl (OtherError ''timeout'')" and ?w2.0 = ?w and ?w3.0 = ?w
         and kr = "Inr (- 1)" and ?w4.0 = ?w] e s d i k
  show ?thesis by (simp add: sim_start_def)
qed

section \<open>A search that fails\<close>

text \<open>
  C5. In every pass whose search call raises, the failure stays in that pass: the decision
  is \<open>SearchError\<close>, the frame is shown with the text \<open>Search Error\<close>, the search is
  called once and not again, the keyboard is polled as in any other pass, and unless the
  user quits just then the loop goes on with the next pass.
\<close>

theorem search_failure_contained:
  assumes "cap_read env (world st) = (Inr (Some img), w1)"
    and "imencode env img = Inr (Some buf)"
    and "search_faces_by_image env cid buf thr 1 w1 = (Inl e, w2)"
    and "imshow env ''Face Recognition''
           \<lparr>pixels = img, drawn = [Annotation ''Search Error'' (10, 60) (255, 0, 0)]\<rparr> w2 = (None, w3)"
    and "wait_key env 1 w3 = (Inr k, w4)"
    and "st' = st\<lparr>world := w4,
            trace := trace st @
              [CapRead, ImEncode img, SearchCall cid buf thr 1, Log ERROR (SearchFailed e),
               PutText (Annotation ''Search Error'' (10, 60) (255, 0, 0)),
               ImShow ''Face Recognition''
                 \<lparr>pixels = img, drawn = [Annotation ''Search Error'' (10, 60) (255, 0, 0)]\<rparr>,
               WaitKey]\<rparr>"
  shows "decide thr (Inl e) = SearchError e \<and>
         (k AND 255 \<noteq> 113 \<longrightarrow>
            loop_body env cid thr st = (Continue, st') \<and>
            run_loop (Suc n) env cid thr st = run_loop n env cid thr st') \<and>
         (k AND 255 = 113 \<longrightarrow>
            loop_body env cid thr st = (Break, emit (Log INFO QuitPressed) st'))"
  using assms
  by (simp add: loop_body_def search_and_annotate_def show_and_poll_def called_def emit_def decide_def)

text \<open>
  The search fails for the first frame and finds the enrolled face for the second: the
  second pass runs as usual.
\<close>

theorem search_failure_contained_witness:
  "run_loop 3 (sim_env (Inr ()) jpeg) ''c'' 85
      \<lparr>world = sim_start [Inr (Some [7]), Inr (Some [8])]
                 [Inl (OtherError ''timeout''), found [candidate ''S_Bussiso_Dube'' 97]] [],
         cap_opened = True, trace = []\<rparr>
    = Some (Inr (),
        \<lparr>world = sim_start [] [] [], cap_opened = True,
           trace =
             [CapRead, ImEncode [7], SearchCall ''c'' [255, 216, 7] 85 1,
              Log ERROR (SearchFailed (OtherError ''timeout'')),
              PutText (Annotation ''Search Error'' (10, 60) (255, 0, 0)),
              ImShow ''Face Recognition''
                \<lparr>pixels = [7], drawn = [Annotation ''Search Error'' (10, 60) (255, 0, 0)]\<rparr>,
              WaitKey,
              CapRead, ImEncode [8], SearchCall ''c'' [255, 216, 8] 85 1,
              Log INFO (MatchFound ''S_Bussiso_Dube'' 97),
              PutText (Annotation ''Match: S_Bussiso_Dube'' (10, 30) (0, 255, 0)),
              ImShow ''Face Recognition''
                \<lparr>pixels = [8],
                   drawn = [Annotation ''Match: S_Bussiso_Dube'' (10, 30) (0, 255, 0)]\<rparr>,
              WaitKey,
              CapRead, Log WARNING GrabFailed]\<rparr>)"
proof -
  let ?env = "sim_env (Inr ()) jpeg"
  let ?ans = "found [candidate ''S_Bussiso_Dube'' 97]"
  let ?st = "\<lparr>world = sim_start [Inr (Some [7]), Inr (Some [8])]
                         [Inl (OtherError ''timeout''), ?ans] [],
                cap_opened = True, trace = []\<rparr>"
  let ?fr = "\<lparr>pixels = [7], drawn = [Annotation ''Search Error'' (10, 60) (255, 0, 0)]\<rparr>"
  let ?w = "sim_start [Inr (Some [8])] [?ans] []"
  let ?st' = "?st\<lparr>world := ?w,
            trace := trace ?st @
              [CapRead, ImEncode [7], SearchCall ''c'' [255, 216, 7] 85 1,
               Log ERROR (SearchFailed (OtherError ''timeout'')),
               PutText (Annotation ''Search Error'' (10, 60) (255, 0, 0)),
               ImShow ''Face Recognition'' ?fr, WaitKey]\<rparr>"
  have r: "cap_read ?env (world ?st)
             = (Inr (Some [7]), sim_start [Inr (Some [8])] [Inl (OtherError ''timeout''), ?ans] [])"
    by (simp add: sim_env_def sim_start_def)
  have e: "imencode ?env [7] = Inr (Some [255, 216, 7])"
    by (simp add: sim_env_def jpeg_def)
  have s: "search_faces_by_image ?env ''c'' [255, 216, 7] 85 1
             (sim_start [Inr (Some [8])] [Inl (OtherError ''timeout''), ?ans] [])
             = (Inl (OtherError ''timeout''), ?w)"
    by (simp add: sim_env_def sim_start_def)
  have i: "imshow ?env ''Face Recognition'' ?fr ?w = (None, ?w)"
    by (simp add: sim_env_def)
  have k: "wait_key ?env 1 ?w = (Inr (- 1), ?w)"
    by (simp add: sim_env_def sim_start_def)
  have q: "(- 1 :: int) AND 255 \<noteq> 113"
    by simp
  from search_failure_contained [OF r e s i k refl, where n = 2] q
  have "run_loop 3 ?env ''c'' 85 ?st = run_loop 2 ?env ''c'' 85 ?st'"
    by (simp add: numeral_3_eq_3 numeral_2_eq_2)
  then show ?thesis
    by (simp add: numeral_2_eq_2 sim_env_def sim_start_def jpeg_def found_def candidate_def
          loop_body_def search_and_annotate_def show_and_poll_def decide_def
          get_face_matches_def Let_def called_def emit_def)
qed

section \<open>Setting up the collection\<close>

lemma sim_env_keeps_collections: "keeps_collections (sim_env index_result encoder)"
  by (auto simp: keeps_collections_def sim_env_def split: if_splits)

text \<open>
  C6. Set-up is idempotent. When the service reports that the collection already exists,
  \<open>setup_collection\<close> returns normally exactly as after a successful creation (only the
  log line differs) and does not exit. So with a service that keeps its collections, a
  second set-up for the same id, made after a first one returned normally, returns
  normally too.
\<close>

theorem setup_collection_idempotent:
  "(create_collection env cid (world st) = (Inl ResourceAlreadyExistsException, w) \<longrightarrow>
      setup_collection env cid st
        = (Inr (), st\<lparr>world := w,
             trace := trace st @ [CreateCollection cid, Log INFO (CollectionExists cid)]\<rparr>)) \<and>
   (create_collection env cid (world st) = (Inr arn, w) \<longrightarrow>
      setup_collection env cid st
        = (Inr (), st\<lparr>world := w,
             trace := trace st @ [CreateCollection cid, Log INFO (CollectionCreated cid arn)]\<rparr>)) \<and>
   (keeps_collections env \<longrightarrow> setup_collection env cid st = (Inr (), st1) \<longrightarrow>
      world st2 = world st1 \<longrightarrow>
      fst (setup_collection env cid st2) = Inr ())"
proof (intro conjI impI)
  assume k: "keeps_collections env" and s: "setup_collection env cid st = (Inr (), st1)"
    and w: "world st2 = world st1"
  obtain r w' where c: "create_collection env cid (world st) = (r, w')"
    by (cases "create_collection env cid (world st)")
  with s have ok: "r = Inl ResourceAlreadyExistsException \<or> (\<exists>arn. r = Inr arn)"
    and w': "world st1 = w'"
    by (auto simp: setup_collection_def called_def emit_def split: sum.splits if_splits)
  from k c ok have "fst (create_collection env cid w') = Inl ResourceAlreadyExistsException"
    unfolding keeps_collections_def by blast
  with w w' show "fst (setup_collection env cid st2) = Inr ()"
    by (auto simp: setup_collection_def split: prod.splits sum.splits)
qed (simp_all add: setup_collection_def called_def emit_def)

text \<open>Two set-ups in a row against a service that starts with no collection.\<close>

theorem setup_collection_idempotent_witness:
  "setup_collection (sim_env (Inr ()) jpeg) ''my-face-collection'' (initial_state (sim_start [] [] []))
     = (Inr (),
        \<lparr>world = (sim_start [] [] [])\<lparr>sim_collections := [''my-face-collection'']\<rparr>,
           cap_opened = False,
           trace = [CreateCollection ''my-face-collection'',
                    Log INFO (CollectionCreated ''my-face-collection'' ''arn:my-face-collection'')]\<rparr>) \<and>
   setup_collection (sim_env (Inr ()) jpeg) ''my-face-collection''
       \<lparr>world = (sim_start [] [] [])\<lparr>sim_collections := [''my-face-collection'']\<rparr>,
          cap_opened = False,
          trace = [CreateCollection ''my-face-collection'',
                   Log INFO (CollectionCreated ''my-face-collection'' ''arn:my-face-collection'')]\<rparr>
     = (Inr (),
        \<lparr>world = (sim_start [] [] [])\<lparr>sim_collections := [''my-face-collection'']\<rparr>,
           cap_opened = False,
           trace = [CreateCollection ''my-face-collection'',
                    Log INFO (CollectionCreated ''my-face-collection'' ''arn:my-face-collection''),
                    CreateCollection ''my-face-collection'',
                    Log INFO (CollectionExists ''my-face-collection'')]\<rparr>) \<and>
   fst (setup_collection (sim_env (Inr ()) jpeg) ''my-face-collection''
       \<lparr>world = (sim_start [] [] [])\<lparr>sim_collections := [''my-face-collection'']\<rparr>,
          cap_opened = True, trace = []\<rparr>) = Inr ()"
proof -
  let ?env = "sim_env (Inr ()) jpeg"
  let ?cid = "''my-face-collection''"
  let ?st = "initial_state (sim_start [] [] [])"
  let ?w = "(sim_start [] [] [])\<lparr>sim_collections := [?cid]\<rparr>"
  let ?st1 = "\<lparr>world = ?w, cap_opened = False,
                 trace = [CreateCollection ?cid,
                          Log INFO (CollectionCreated ?cid ''arn:my-face-collection'')]\<rparr>"
  let ?st2 = "\<lparr>world = ?w, cap_opened = True, trace = []\<rparr>"
  have c1: "create_collection ?env ?cid (world ?st) = (Inr ''arn:my-face-collection'', ?w)"
    by (simp add: sim_env_def sim_start_def initial_state_def)
  have c2: "create_collection ?env ?cid (world ?st1) = (Inl ResourceAlreadyExistsException, ?w)"
    by (simp add: sim_env_def sim_start_def)
  from setup_collection_idempotent [of ?env ?cid ?st ?w "''arn:my-face-collection''" ?st1 ?st2] c1
  have first: "setup_collection ?env ?cid ?st = (Inr (), ?st1)"
    by (simp add: initial_state_def)
  from setup_collection_idempotent [of ?env ?cid ?st ?w "''arn:my-face-collection''" ?st1 ?st2]
    first sim_env_keeps_collections [of "Inr ()" jpeg]
  have third: "fst (setup_collection ?env ?cid ?st2) = Inr ()"
    by simp
  from setup_collection_idempotent [of ?env ?cid ?st1 ?w] c2
  have second: "setup_collection ?env ?cid ?st1
     = (Inr (), ?st1\<lparr>world := ?w,
          trace := trace ?st1 @ [CreateCollection ?cid, Log INFO (CollectionExists ?cid)]\<rparr>)"
    by blast
  from first second third show ?thesis by simp
qed

section \<open>Enrolling the reference face\<close>

lemma index_error_not_fatal:
  assumes "read_file env path (world st) = (Inr image_bytes, w1)"
    and "index_faces env cid image_bytes ext w1 = (Inl e, w2)"
    and "e \<noteq> FileNotFoundError"
  shows "index_known_face env cid path ext st
           = (Inr (), st\<lparr>world := w2,
                trace := trace st @ [ReadFile path, IndexFaces cid image_bytes ext,
                                     Log ERROR (IndexingError path e)]\<rparr>)"
  using assms by (simp add: index_known_face_def index_failed_def Let_def called_def emit_def)

lemma read_error_not_fatal:
  assumes "read_file env path (world st) = (Inl e, w1)"
    and "e \<noteq> FileNotFoundError"
  shows "index_known_face env cid path ext st
           = (Inr (), st\<lparr>world := w1,
                trace := trace st @ [ReadFile path, Log ERROR (IndexingError path e)]\<rparr>)"
  using assms by (simp add: index_known_face_def index_failed_def called_def emit_def)

lemma image_not_found_fatal:
  assumes "read_file env path (world st) = (Inl FileNotFoundError, w1)"
  shows "index_known_face env cid path ext st
           = (Inl (SystemExit 1), st\<lparr>world := w1,
                trace := trace st @ [ReadFile path, Log ERROR (ImageNotFound path)]\<rparr>)"
  using assms by (simp add: index_known_face_def index_failed_def called_def emit_def)

text \<open>
  C2 does not hold of the code. Only a missing image file ends the process
  (\<open>image_not_found_fatal\<close>). When \<open>index_faces\<close> raises, the second \<open>except\<close> clause
  of \<open>index_known_face\<close> (lines 79--81) logs the error and returns; \<open>main\<close> goes on and
  enters the recognition loop. In this run the service refuses to index the face, and the
  program still opens the camera, searches one frame and ends normally when \<open>q\<close> is
  pressed.
\<close>

theorem enroll_failure_enters_loop:
  "main 1 (sim_env (Inl (OtherError ''AccessDeniedException'')) jpeg)
       (sim_start [Inr (Some [7])] [] [113])
     = Some (Inr (),
         \<lparr>world = \<lparr>sim_collections = [''my-face-collection''], sim_frames = [],
                    sim_answers = [], sim_keys = []\<rparr>,
            cap_opened = False,
            trace =
              [Boto3Client, Log INFO (ClientInitialized ''us-east-1''),
               CreateCollection ''my-face-collection'',
               Log INFO (CollectionCreated ''my-face-collection'' ''arn:my-face-collection''),
               ReadFile ''me.jpg'',
               IndexFaces ''my-face-collection'' [255, 216, 255] ''S_Bussiso_Dube'',
               Log ERROR (IndexingError ''me.jpg'' (OtherError ''AccessDeniedException'')),
               Log INFO StartingCapture, VideoCapture,
               CapRead, ImEncode [7], SearchCall ''my-face-collection'' [255, 216, 7] 85 1,
               Log DEBUG NoFaces,
               PutText (Annotation ''No Match'' (10, 30) (0, 0, 255)),
               ImShow ''Face Recognition''
                 \<lparr>pixels = [7], drawn = [Annotation ''No Match'' (10, 30) (0, 0, 255)]\<rparr>,
               WaitKey, Log INFO QuitPressed,
               Log INFO Releasing, CapRelease, DestroyAllWindows, Log INFO Released,
               Log INFO AppFinished]\<rparr>)"
  by (simp add: main_def initialize_rekognition_def setup_collection_def index_known_face_def
        index_failed_def run_face_recognition_def cleanup_def loop_body_def
        search_and_annotate_def show_and_poll_def decide_def get_face_matches_def
        falsy_def REGION_NAME_def COLLECTION_ID_def KNOWN_FACE_IMAGE_def KNOWN_FACE_ID_def
        SIMILARITY_THRESHOLD_def initial_state_def sim_env_def sim_start_def jpeg_def
        Let_def called_def emit_def)

section \<open>Leaving the loop\<close>

text \<open>No pass of the loop touches the capture handle or closes the windows.\<close>

lemma decision_logs_no_release:
  "CapRelease \<notin> set (decision_logs d)" "DestroyAllWindows \<notin> set (decision_logs d)"
  by (cases d; simp)+

lemma search_and_annotate_handle:
  assumes "search_and_annotate env cid thr buf fr st = (fr', st')"
  shows "cap_opened st' = cap_opened st \<and>
         count_list (trace st') CapRelease = count_list (trace st) CapRelease \<and>
         count_list (trace st') DestroyAllWindows = count_list (trace st) DestroyAllWindows"
  using assms
  by (auto simp: search_and_annotate_def Let_def decision_logs_no_release split: prod.splits)

lemma show_and_poll_handle:
  assumes "show_and_poll env fr st = (fl, st')"
  shows "cap_opened st' = cap_opened st \<and>
         count_list (trace st') CapRelease = count_list (trace st) CapRelease \<and>
         count_list (trace st') DestroyAllWindows = count_list (trace st) DestroyAllWindows"
  using assms
  by (auto simp: show_and_poll_def Let_def called_def emit_def
           split: prod.splits option.splits sum.splits if_splits)

lemma loop_body_handle:
  assumes "loop_body env cid thr st = (fl, st')"
  shows "cap_opened st' = cap_opened st \<and>
         count_list (trace st') CapRelease = count_list (trace st) CapRelease \<and>
         count_list (trace st') DestroyAllWindows = count_list (trace st) DestroyAllWindows"
proof (cases "cap_read env (world st)")
  case (Pair r w)
  show ?thesis
  proof (cases r)
    case (Inl e)
    with Pair assms show ?thesis by (auto simp: loop_body_def Let_def called_def)
  next
    case (Inr got)
    show ?thesis
    proof (cases got)
      case None
      with Pair Inr assms show ?thesis by (auto simp: loop_body_def Let_def called_def emit_def)
    next
      case (Some img)
      let ?st1 = "emit (ImEncode img) (called CapRead w st)"
      have st1: "cap_opened ?st1 = cap_opened st"
        "count_list (trace ?st1) CapRelease = count_list (trace st) CapRelease"
        "count_list (trace ?st1) DestroyAllWindows = count_list (trace st) DestroyAllWindows"
        by (simp_all add: called_def emit_def)
      show ?thesis
      proof (cases "imencode env img")
        case (Inl e)
        with Pair Inr Some assms st1 show ?thesis by (auto simp: loop_body_def Let_def)
      next
        case enc: (Inr b)
        show ?thesis
        proof (cases b)
          case None
          with Pair Inr Some enc assms show ?thesis
            by (auto simp: loop_body_def Let_def called_def emit_def)
        next
          case buf: (Some buf)
          obtain fr st2 where sa:
            "search_and_annotate env cid thr buf \<lparr>pixels = img, drawn = []\<rparr> ?st1 = (fr, st2)"
            by (cases "search_and_annotate env cid thr buf \<lparr>pixels = img, drawn = []\<rparr> ?st1")
          with Pair Inr Some enc buf assms have sp: "show_and_poll env fr st2 = (fl, st')"
            by (simp add: loop_body_def Let_def)
          from search_and_annotate_handle [OF sa] show_and_poll_handle [OF sp] st1
          show ?thesis by simp
        qed
      qed
    qed
  qed
qed

lemma run_loop_handle:
  "run_loop n env cid thr st = Some (r, st') \<Longrightarrow>
     cap_opened st' = cap_opened st \<and>
     count_list (trace st') CapRelease = count_list (trace st) CapRelease \<and>
     count_list (trace st') DestroyAllWindows = count_list (trace st) DestroyAllWindows"
proof (induction n arbitrary: st)
  case 0
  then show ?case by simp
next
  case (Suc n)
  obtain fl st1 where b: "loop_body env cid thr st = (fl, st1)"
    by (cases "loop_body env cid thr st")
  note h = loop_body_handle [OF b]
  show ?case
  proof (cases fl)
    case Continue
    with b Suc.prems have "run_loop n env cid thr st1 = Some (r, st')" by simp
    from Suc.IH [OF this] h show ?thesis by simp
  next
    case Break
    with b Suc.prems h show ?thesis by auto
  next
    case (Raise e)
    with b Suc.prems h show ?thesis by auto
  qed
qed

lemma cleanup_opened:
  "cap_opened st \<Longrightarrow>
     cleanup st = st\<lparr>cap_opened := False,
        trace := trace st @ [Log INFO Releasing, CapRelease, DestroyAllWindows, Log INFO Released]\<rparr>"
  by (simp add: cleanup_def Let_def emit_def)

text \<open>
  C7. Whenever \<open>run_face_recognition\<close> has opened the camera and comes to an end, by a
  \<open>break\<close> (the user quits, or the camera delivers no frame) or by an exception that
  escapes the loop, the \<open>finally\<close> block has run: the capture handle is closed, it was
  released exactly once, the windows were destroyed exactly once, and these are the last
  things the function did.
\<close>

theorem camera_released_on_every_exit:
  assumes "run_face_recognition fuel env cid thr st = Some (r, st')"
    and "fst (video_capture env (world st))"
  shows "\<not> cap_opened st' \<and>
         count_list (trace st') CapRelease = Suc (count_list (trace st) CapRelease) \<and>
         count_list (trace st') DestroyAllWindows = Suc (count_list (trace st) DestroyAllWindows) \<and>
         (\<exists>pre. trace st' = pre @ [Log INFO Releasing, CapRelease, DestroyAllWindows, Log INFO Released])"
proof -
  obtain w where vc: "video_capture env (world st) = (True, w)"
    using assms(2) by (cases "video_capture env (world st)") auto
  let ?st1 = "(called VideoCapture w (emit (Log INFO StartingCapture) st))\<lparr>cap_opened := True\<rparr>"
  from assms(1) vc obtain r0 st2 where
    loop: "run_loop fuel env cid thr ?st1 = Some (r0, st2)" and st': "st' = cleanup st2"
    by (auto simp: run_face_recognition_def Let_def emit_def split: option.splits sum.splits)
  from run_loop_handle [OF loop] have
    o: "cap_opened st2" and
    c: "count_list (trace st2) CapRelease = count_list (trace st) CapRelease"
       "count_list (trace st2) DestroyAllWindows = count_list (trace st) DestroyAllWindows"
    by (simp_all add: called_def emit_def)
  from st' o c show ?thesis by (simp add: cleanup_opened)
qed

text \<open>
  The three ways out, each run to its end: the camera raises on the second read, the user
  presses \<open>q\<close> after the first frame, the camera delivers no frame at all.
\<close>

theorem camera_released_on_every_exit_witness:
  "(\<exists>st'. run_face_recognition 2 (sim_env (Inr ()) jpeg) ''c'' 85
            (initial_state (sim_start [Inr (Some [7]), Inl (OtherError ''cv2.error'')] [] []))
          = Some (Inl (Uncaught (OtherError ''cv2.error'')), st') \<and>
        \<not> cap_opened st' \<and> count_list (trace st') CapRelease = 1 \<and>
        count_list (trace st') DestroyAllWindows = 1) \<and>
   (\<exists>st'. run_face_recognition 1 (sim_env (Inr ()) jpeg) ''c'' 85
            (initial_state (sim_start [Inr (Some [7])] [] [113]))
          = Some (Inr (), st') \<and>
        \<not> cap_opened st' \<and> count_list (trace st') CapRelease = 1 \<and>
        count_list (trace st') DestroyAllWindows = 1) \<and>
   (\<exists>st'. run_face_recognition 1 (sim_env (Inr ()) jpeg) ''c'' 85
            (initial_state (sim_start [] [] []))
          = Some (Inr (), st') \<and>
        \<not> cap_opened st' \<and> count_list (trace st') CapRelease = 1 \<and>
        count_list (trace st') DestroyAllWindows = 1)"
proof -
  let ?env = "sim_env (Inr ()) jpeg"
  let ?shown = "[CapRead, ImEncode [7], SearchCall ''c'' [255, 216, 7] 85 1, Log DEBUG NoFaces,
      PutText (Annotation ''No Match'' (10, 30) (0, 0, 255)),
      ImShow ''Face Recognition''
        \<lparr>pixels = [7], drawn = [Annotation ''No Match'' (10, 30) (0, 0, 255)]\<rparr>,
      WaitKey]"
  let ?closing = "[Log INFO Releasing, CapRelease, DestroyAllWindows, Log INFO Released]"
  let ?s1 = "initial_state (sim_start [Inr (Some [7]), Inl (OtherError ''cv2.error'')] [] [])"
  let ?s2 = "initial_state (sim_start [Inr (Some [7])] [] [113])"
  let ?s3 = "initial_state (sim_start [] [] [])"
  let ?e1 = "\<lparr>world = sim_start [] [] [], cap_opened = False,
      trace = [Log INFO StartingCapture, VideoCapture] @ ?shown @ [CapRead] @ ?closing\<rparr>"
  let ?e2 = "\<lparr>world = sim_start [] [] [], cap_opened = False,
      trace = [Log INFO StartingCapture, VideoCapture] @ ?shown @ [Log INFO QuitPressed] @ ?closing\<rparr>"
  let ?e3 = "\<lparr>world = sim_start [] [] [], cap_opened = False,
      trace = [Log INFO StartingCapture, VideoCapture, CapRead, Log WARNING GrabFailed] @ ?closing\<rparr>"
  note defs = run_face_recognition_def cleanup_def loop_body_def search_and_annotate_def
    show_and_poll_def decide_def get_face_matches_def initial_state_def sim_env_def
    sim_start_def jpeg_def Let_def called_def emit_def
  have r1: "run_face_recognition 2 ?env ''c'' 85 ?s1
              = Some (Inl (Uncaught (OtherError ''cv2.error'')), ?e1)"
    by (simp add: numeral_2_eq_2 defs)
  have r2: "run_face_recognition 1 ?env ''c'' 85 ?s2 = Some (Inr (), ?e2)"
    by (simp add: defs)
  have r3: "run_face_recognition 1 ?env ''c'' 85 ?s3 = Some (Inr (), ?e3)"
    by (simp add: defs)
  have v: "fst (video_capture ?env (world ?s1))" "fst (video_capture ?env (world ?s2))"
    "fst (video_capture ?env (world ?s3))"
    by (simp_all add: sim_env_def)
  have t: "count_list (trace ?s1) CapRelease = 0" "count_list (trace ?s1) DestroyAllWindows = 0"
    "count_list (trace ?s2) CapRelease = 0" "count_list (trace ?s2) DestroyAllWindows = 0"
    "count_list (trace ?s3) CapRelease = 0" "count_list (trace ?s3) DestroyAllWindows = 0"
    by (simp_all add: initial_state_def)
  from camera_released_on_every_exit [OF r1 v(1)] t(1,2)
  have "\<not> cap_opened ?e1 \<and> count_list (trace ?e1) CapRelease = 1 \<and>
        count_list (trace ?e1) DestroyAllWindows = 1"
    by simp
  with r1 have a: "\<exists>st'. run_face_recognition 2 ?env ''c'' 85 ?s1
          = Some (Inl (Uncaught (OtherError ''cv2.error'')), st') \<and>
        \<not> cap_opened st' \<and> count_list (trace st') CapRelease = 1 \<and>
        count_list (trace st') DestroyAllWindows = 1"
    by blast
  from camera_released_on_every_exit [OF r2 v(2)] t(3,4)
  have "\<not> cap_opened ?e2 \<and> count_list (trace ?e2) CapRelease = 1 \<and>
        count_list (trace ?e2) DestroyAllWindows = 1"
    by simp
  with r2 have b: "\<exists>st'. run_face_recognition 1 ?env ''c'' 85 ?s2 = Some (Inr (), st') \<and>
        \<not> cap_opened st' \<and> count_list (trace st') CapRelease = 1 \<and>
        count_list (trace st') DestroyAllWindows = 1"
    by blast
  from camera_released_on_every_exit [OF r3 v(3)] t(5,6)
  have "\<not> cap_opened ?e3 \<and> count_list (trace ?e3) CapRelease = 1 \<and>
        count_list (trace ?e3) DestroyAllWindows = 1"
    by simp
  with r3 have c: "\<exists>st'. run_face_recognition 1 ?env ''c'' 85 ?s3 = Some (Inr (), st') \<and>
        \<not> cap_opened st' \<and> count_list (trace st') CapRelease = 1 \<and>
        count_list (trace st') DestroyAllWindows = 1"
    by blast
  from a b c show ?thesis by (intro conjI)
qed

section \<open>The camera stops delivering\<close>

lemma loop_body_opened:
  "loop_body env cid thr st = (fl, st') \<Longrightarrow> cap_opened st' = cap_opened st"
  using loop_body_handle by blast

lemma iterations_opened:
  "iterations k env cid thr st = Some sk \<Longrightarrow> cap_opened sk = cap_opened st"
proof (induction k arbitrary: st)
  case 0
  then show ?case by simp
next
  case (Suc k)
  obtain fl st1 where b: "loop_body env cid thr st = (fl, st1)"
    by (cases "loop_body env cid thr st")
  with Suc.prems have "fl = Continue" and "iterations k env cid thr st1 = Some sk"
    by (auto split: flow.splits)
  with Suc.IH loop_body_opened [OF b] show ?case by simp
qed

lemma iterations_run_loop:
  "iterations k env cid thr st = Some sk \<Longrightarrow>
     run_loop (k + n) env cid thr st = run_loop n env cid thr sk"
proof (induction k arbitrary: st)
  case 0
  then show ?case by simp
next
  case (Suc k)
  obtain fl st1 where b: "loop_body env cid thr st = (fl, st1)"
    by (cases "loop_body env cid thr st")
  with Suc.prems have "fl = Continue" and "iterations k env cid thr st1 = Some sk"
    by (auto split: flow.splits)
  with Suc.IH b show ?case by simp
qed

lemma grab_failure_breaks:
  "cap_read env (world st) = (Inr None, w) \<Longrightarrow>
     run_loop (Suc n) env cid thr st
       = Some (Inr (), st\<lparr>world := w, trace := trace st @ [CapRead, Log WARNING GrabFailed]\<rparr>)"
  by (simp add: loop_body_def called_def emit_def)

lemma run_face_recognition_break:
  assumes "video_capture env (world st) = (True, w0)"
    and "run_loop fuel env cid thr
           (st\<lparr>world := w0,
               trace := trace st @ [Log INFO StartingCapture, VideoCapture],
               cap_opened := True\<rparr>) = Some (Inr (), st2)"
  shows "run_face_recognition fuel env cid thr st = Some (Inr (), cleanup st2)"
  using assms by (simp add: run_face_recognition_def Let_def called_def emit_def)

lemma main_finished:
  assumes "initialize_rekognition env (initial_state w) = (Inr (), s1)"
    and "setup_collection env COLLECTION_ID s1 = (Inr (), s2)"
    and "index_known_face env COLLECTION_ID KNOWN_FACE_IMAGE KNOWN_FACE_ID s2 = (Inr (), s3)"
    and "run_face_recognition fuel env COLLECTION_ID SIMILARITY_THRESHOLD s3 = Some (Inr (), s4)"
  shows "main fuel env w = Some (Inr (), emit (Log INFO AppFinished) s4)"
  using assms by (simp add: main_def)

text \<open>
  C9. Let the program have started up, opened the camera and made \<open>k\<close> passes of the loop
  that each went on to the next. If the camera then delivers no frame, the program ends,
  with any fuel beyond those \<open>k + 1\<close> passes, and it ends normally: \<open>main\<close> returns
  (no \<open>sys.exit\<close>, no exception), the capture handle is released and closed, the windows are
  destroyed, and after the failed read nothing is read, searched or shown any more: the
  only events that follow are the warning, the clean-up and the final log line.
\<close>

theorem end_of_stream_is_graceful:
  assumes "initialize_rekognition env (initial_state w) = (Inr (), s1)"
    and "setup_collection env COLLECTION_ID s1 = (Inr (), s2)"
    and "index_known_face env COLLECTION_ID KNOWN_FACE_IMAGE KNOWN_FACE_ID s2 = (Inr (), s3)"
    and "video_capture env (world s3) = (True, w0)"
    and "iterations k env COLLECTION_ID SIMILARITY_THRESHOLD
           (s3\<lparr>world := w0,
                trace := trace s3 @ [Log INFO StartingCapture, VideoCapture],
                cap_opened := True\<rparr>) = Some sk"
    and "cap_read env (world sk) = (Inr None, w')"
  shows "main (k + Suc n) env w =
           Some (Inr (),
             sk\<lparr>world := w', cap_opened := False,
                trace := trace sk @
                  [CapRead, Log WARNING GrabFailed, Log INFO Releasing, CapRelease,
                   DestroyAllWindows, Log INFO Released, Log INFO AppFinished]\<rparr>)"
proof -
  let ?st = "s3\<lparr>world := w0,
                trace := trace s3 @ [Log INFO StartingCapture, VideoCapture],
                cap_opened := True\<rparr>"
  let ?end = "sk\<lparr>world := w', trace := trace sk @ [CapRead, Log WARNING GrabFailed]\<rparr>"
  have "run_loop (k + Suc n) env COLLECTION_ID SIMILARITY_THRESHOLD ?st
          = run_loop (Suc n) env COLLECTION_ID SIMILARITY_THRESHOLD sk"
    by (rule iterations_run_loop [OF assms(5)])
  also have "\<dots> = Some (Inr (), ?end)"
    by (rule grab_failure_breaks [OF assms(6)])
  finally have loop:
    "run_loop (k + Suc n) env COLLECTION_ID SIMILARITY_THRESHOLD ?st = Some (Inr (), ?end)" .
  have "cap_opened sk"
    using iterations_opened [OF assms(5)] by simp
  then have c: "emit (Log INFO AppFinished) (cleanup ?end) =
      sk\<lparr>world := w', cap_opened := False,
         trace := trace sk @
           [CapRead, Log WARNING GrabFailed, Log INFO Releasing, CapRelease,
            DestroyAllWindows, Log INFO Released, Log INFO AppFinished]\<rparr>"
    by (simp add: cleanup_def Let_def emit_def)
  from main_finished [OF assms(1-3) run_face_recognition_break [OF assms(4) loop]] c
  show ?thesis by (simp only:)
qed

text \<open>One frame is shown, then the camera stops delivering.\<close>

theorem end_of_stream_is_graceful_witness:
  "main 2 (sim_env (Inr ()) jpeg) (sim_start [Inr (Some [7])] [] [])
     = Some (Inr (),
         \<lparr>world = \<lparr>sim_collections = [''my-face-collection''], sim_frames = [],
                    sim_answers = [], sim_keys = []\<rparr>,
            cap_opened = False,
            trace =
              [Boto3Client, Log INFO (ClientInitialized ''us-east-1''),
               CreateCollection ''my-face-collection'',
               Log INFO (CollectionCreated ''my-face-collection'' ''arn:my-face-collection''),
               ReadFile ''me.jpg'',
               IndexFaces ''my-face-collection'' [255, 216, 255] ''S_Bussiso_Dube'',
               Log INFO (FaceIndexed ''me.jpg'' ''S_Bussiso_Dube''),
               Log INFO StartingCapture, VideoCapture,
               CapRead, ImEncode [7], SearchCall ''my-face-collection'' [255, 216, 7] 85 1,
               Log DEBUG NoFaces,
               PutText (Annotation ''No Match'' (10, 30) (0, 0, 255)),
               ImShow ''Face Recognition''
                 \<lparr>pixels = [7], drawn = [Annotation ''No Match'' (10, 30) (0, 0, 255)]\<rparr>,
               WaitKey,
               CapRead, Log WARNING GrabFailed,
               Log INFO Releasing, CapRelease, DestroyAllWindows, Log INFO Released,
               Log INFO AppFinished]\<rparr>)"
proof -
  let ?env = "sim_env (Inr ()) jpeg"
  let ?w = "sim_start [Inr (Some [7])] [] []"
  let ?w1 = "\<lparr>sim_collections = [''my-face-collection''], sim_frames = [Inr (Some [7])],
               sim_answers = [], sim_keys = []\<rparr>"
  let ?w2 = "\<lparr>sim_collections = [''my-face-collection''], sim_frames = [],
               sim_answers = [], sim_keys = []\<rparr>"
  let ?t1 = "[Boto3Client, Log INFO (ClientInitialized ''us-east-1'')]"
  let ?t2 = "?t1 @ [CreateCollection ''my-face-collection'',
               Log INFO (CollectionCreated ''my-face-collection'' ''arn:my-face-collection'')]"
  let ?t3 = "?t2 @ [ReadFile ''me.jpg'',
               IndexFaces ''my-face-collection'' [255, 216, 255] ''S_Bussiso_Dube'',
               Log INFO (FaceIndexed ''me.jpg'' ''S_Bussiso_Dube'')]"
  let ?tk = "?t3 @ [Log INFO StartingCapture, VideoCapture,
               CapRead, ImEncode [7], SearchCall ''my-face-collection'' [255, 216, 7] 85 1,
               Log DEBUG NoFaces,
               PutText (Annotation ''No Match'' (10, 30) (0, 0, 255)),
               ImShow ''Face Recognition''
                 \<lparr>pixels = [7], drawn = [Annotation ''No Match'' (10, 30) (0, 0, 255)]\<rparr>,
               WaitKey]"
  let ?s1 = "\<lparr>world = ?w, cap_opened = False, trace = ?t1\<rparr>"
  let ?s2 = "\<lparr>world = ?w1, cap_opened = False, trace = ?t2\<rparr>"
  let ?s3 = "\<lparr>world = ?w1, cap_opened = False, trace = ?t3\<rparr>"
  let ?sk = "\<lparr>world = ?w2, cap_opened = True, trace = ?tk\<rparr>"
  have h1: "initialize_rekognition ?env (initial_state ?w) = (Inr (), ?s1)"
    by (simp add: initialize_rekognition_def falsy_def REGION_NAME_def initial_state_def
          sim_env_def called_def emit_def)
  have h2: "setup_collection ?env COLLECTION_ID ?s1 = (Inr (), ?s2)"
    by (simp add: setup_collection_def COLLECTION_ID_def sim_env_def sim_start_def
          called_def emit_def)
  have h3: "index_known_face ?env COLLECTION_ID KNOWN_FACE_IMAGE KNOWN_FACE_ID ?s2 = (Inr (), ?s3)"
    by (simp add: index_known_face_def COLLECTION_ID_def KNOWN_FACE_IMAGE_def KNOWN_FACE_ID_def
          sim_env_def Let_def called_def emit_def)
  have h4: "video_capture ?env (world ?s3) = (True, ?w1)"
    by (simp add: sim_env_def)
  have h5: "iterations 1 ?env COLLECTION_ID SIMILARITY_THRESHOLD
              (?s3\<lparr>world := ?w1,
                    trace := trace ?s3 @ [Log INFO StartingCapture, VideoCapture],
                    cap_opened := True\<rparr>) = Some ?sk"
    by (simp add: loop_body_def search_and_annotate_def show_and_poll_def decide_def
          get_face_matches_def COLLECTION_ID_def SIMILARITY_THRESHOLD_def sim_env_def jpeg_def
          Let_def called_def emit_def)
  have h6: "cap_read ?env (world ?sk) = (Inr None, ?w2)"
    by (simp add: sim_env_def)
  from end_of_stream_is_graceful [OF h1 h2 h3 h4 h5 h6, where n = 0]
  show ?thesis by (simp add: numeral_2_eq_2)
qed

section \<open>The threshold is checked twice\<close>

lemma decide_not_low:
  assumes "respects_threshold env"
    and "search_faces_by_image env cid buf thr mx w = (r, w')"
  shows "decide thr r \<noteq> LowMatch face_id sim"
proof
  assume low: "decide thr r = LowMatch face_id sim"
  then obtain resp m ms where
    r: "r = Inr resp" and ms: "get_face_matches resp = m # ms" and
    s: "similarity m = Some sim" and lt: "\<not> thr \<le> sim"
    by (auto simp: decide_def split: sum.splits list.splits option.splits if_splits)
  from assms(2) r have "fst (search_faces_by_image env cid buf thr mx w) = Inr resp" by simp
  moreover from ms have "m \<in> set (get_face_matches resp)" by simp
  ultimately have "thr \<le> sim"
    using assms(1) s unfolding respects_threshold_def by blast
  with lt show False by simp
qed

lemma decision_events_not_low:
  assumes "\<And>face_id sim. d \<noteq> LowMatch face_id sim"
  shows "filter low_match_event (decision_logs d @ [PutText (overlay d)]) = []"
  using assms by (cases d) auto

lemma search_and_annotate_not_low:
  assumes "respects_threshold env"
    and "search_and_annotate env cid thr buf fr st = (fr', st')"
  shows "filter low_match_event (trace st') = filter low_match_event (trace st)"
proof -
  obtain r w where s: "search_faces_by_image env cid buf thr 1 (world st) = (r, w)"
    by (cases "search_faces_by_image env cid buf thr 1 (world st)")
  have "filter low_match_event (decision_logs (decide thr r) @ [PutText (overlay (decide thr r))]) = []"
    by (rule decision_events_not_low) (rule decide_not_low [OF assms(1) s])
  with assms(2) s show ?thesis
    by (auto simp: search_and_annotate_def Let_def)
qed

lemma show_and_poll_not_low:
  assumes "show_and_poll env fr st = (fl, st')"
  shows "filter low_match_event (trace st') = filter low_match_event (trace st)"
  using assms
  by (auto simp: show_and_poll_def Let_def called_def emit_def
           split: prod.splits option.splits sum.splits if_splits)

lemma loop_body_not_low:
  assumes "respects_threshold env"
    and "loop_body env cid thr st = (fl, st')"
  shows "filter low_match_event (trace st') = filter low_match_event (trace st)"
proof (cases "cap_read env (world st)")
  case (Pair r w)
  show ?thesis
  proof (cases r)
    case (Inl e)
    with Pair assms(2) show ?thesis by (auto simp: loop_body_def called_def)
  next
    case (Inr got)
    show ?thesis
    proof (cases got)
      case None
      with Pair Inr assms(2) show ?thesis by (auto simp: loop_body_def called_def emit_def)
    next
      case (Some img)
      let ?st1 = "emit (ImEncode img) (called CapRead w st)"
      have st1: "filter low_match_event (trace ?st1) = filter low_match_event (trace st)"
        by (simp add: called_def emit_def)
      show ?thesis
      proof (cases "imencode env img")
        case (Inl e)
        with Pair Inr Some assms(2) st1 show ?thesis by (auto simp: loop_body_def Let_def)
      next
        case enc: (Inr b)
        show ?thesis
        proof (cases b)
          case None
          with Pair Inr Some enc assms(2) show ?thesis
            by (auto simp: loop_body_def Let_def called_def emit_def)
        next
          case buf: (Some buf)
          obtain fr st2 where sa:
            "search_and_annotate env cid thr buf \<lparr>pixels = img, drawn = []\<rparr> ?st1 = (fr, st2)"
            by (cases "search_and_annotate env cid thr buf \<lparr>pixels = img, drawn = []\<rparr> ?st1")
          with Pair Inr Some enc buf assms(2) have sp: "show_and_poll env fr st2 = (fl, st')"
            by (simp add: loop_body_def Let_def)
          from search_and_annotate_not_low [OF assms(1) sa] show_and_poll_not_low [OF sp] st1
          show ?thesis by simp
        qed
      qed
    qed
  qed
qed

lemma filtering_env_respects: "respects_threshold (filtering_env ms)"
  by (auto simp: respects_threshold_def filtering_env_def sim_env_def found_def
        get_face_matches_def split: option.splits)

text \<open>
  C10. The loop passes the one configured threshold both to the service, as
  \<open>FaceMatchThreshold\<close>, and to its own comparison at line 119. If the service keeps its
  contract (every candidate it returns reaches the threshold it was given), the branch of
  line 122 is never taken: the decision for the service's answer is never \<open>LowMatch\<close>, no
  pass of the loop draws \<open>Low Match\<close> or logs a match below the threshold, and neither
  does any run of the loop.
\<close>

theorem low_match_unreachable:
  assumes "respects_threshold env"
  shows "decide thr (fst (search_faces_by_image env cid buf thr mx w)) \<noteq> LowMatch face_id sim \<and>
         filter low_match_event (trace (snd (loop_body env cid thr st)))
           = filter low_match_event (trace st) \<and>
         (run_loop n env cid thr st = Some (r, st') \<longrightarrow>
            filter low_match_event (trace st') = filter low_match_event (trace st))"
proof (intro conjI impI)
  show "decide thr (fst (search_faces_by_image env cid buf thr mx w)) \<noteq> LowMatch face_id sim"
    using decide_not_low [OF assms, of cid buf thr mx w] by (metis prod.collapse)
  show "filter low_match_event (trace (snd (loop_body env cid thr st)))
           = filter low_match_event (trace st)"
    using loop_body_not_low [OF assms, of cid thr st] by (metis prod.collapse)
  assume "run_loop n env cid thr st = Some (r, st')"
  then show "filter low_match_event (trace st') = filter low_match_event (trace st)"
  proof (induction n arbitrary: st)
    case 0
    then show ?case by simp
  next
    case (Suc n)
    obtain fl st1 where b: "loop_body env cid thr st = (fl, st1)"
      by (cases "loop_body env cid thr st")
    note h = loop_body_not_low [OF assms b]
    show ?case
    proof (cases fl)
      case Continue
      with b Suc.prems have "run_loop n env cid thr st1 = Some (r, st')" by simp
      from Suc.IH [OF this] h show ?thesis by simp
    next
      case Break
      with b Suc.prems h show ?thesis by auto
    next
      case (Raise e)
      with b Suc.prems h show ?thesis by auto
    qed
  qed
qed

text \<open>
  A service that holds one face of similarity 60 and filters by the threshold: asked with
  threshold 85 it returns nothing, and the pass draws \<open>No Match\<close>, not \<open>Low Match\<close>.
\<close>

theorem low_match_unreachable_witness:
  "respects_threshold (filtering_env [candidate ''jane'' 60]) \<and>
   decide 85 (fst (search_faces_by_image (filtering_env [candidate ''jane'' 60])
                     ''c'' [255, 216, 7] 85 1 (sim_start [] [] [])))
     \<noteq> LowMatch ''jane'' 60 \<and>
   filter low_match_event
     (trace (snd (loop_body (filtering_env [candidate ''jane'' 60]) ''c'' 85
        \<lparr>world = sim_start [Inr (Some [7])] [] [], cap_opened = True, trace = []\<rparr>))) = []"
proof -
  let ?env = "filtering_env [candidate ''jane'' 60]"
  let ?st = "\<lparr>world = sim_start [Inr (Some [7])] [] [], cap_opened = True, trace = []\<rparr>"
  have c: "respects_threshold ?env"
    by (rule filtering_env_respects)
  from low_match_unreachable [OF c, where thr = 85 and cid = "''c''" and buf = "[255, 216, 7]"
      and mx = 1 and w = "sim_start [] [] []" and face_id = "''jane''" and sim = 60
      and st = ?st and n = 0]
    c
  show ?thesis by simp
qed


end
